theory Spec2Isabelle
  imports Complex_Main
begin

section \<open>Expiring cache (src/Cache.py)\<close>

text \<open>
  The clock \<open>time.time()\<close> returns seconds as a number; it is modelled as a real and
  every operation that reads the clock takes the reading as its argument \<open>now\<close>.
  A time-to-live is a Python \<open>int\<close>.
\<close>

type_synonym time = real

datatype error = KeyError | FileNotFoundError | ValueError | RuntimeError | OSError

text \<open>
  \<open>class Cache\<close>: \<open>_store\<close> is a dict from key to \<open>(value, expiry)\<close>, \<open>_default_ttl\<close>
  the lifetime given at construction.
\<close>

record ('k, 'v) cache =
  store :: "'k \<rightharpoonup> ('v \<times> time)"
  default_ttl :: int

definition Cache :: "int \<Rightarrow> ('k, 'v) cache" where
  "Cache ttl = \<lparr>store = Map.empty, default_ttl = ttl\<rparr>"

text \<open>\<open>_is_expired\<close>: a missing key counts as expired, a stored one when \<open>now > expiry\<close>.\<close>

definition is_expired :: "time \<Rightarrow> ('k, 'v) cache \<Rightarrow> 'k \<Rightarrow> bool" where
  "is_expired now c key =
     (case store c key of
        None \<Rightarrow> True
      | Some (_, expiry) \<Rightarrow> now > expiry)"

text \<open>\<open>self._store.pop(key, None)\<close>: remove the key if it is there.\<close>

definition pop_key :: "'k \<Rightarrow> ('k, 'v) cache \<Rightarrow> ('k, 'v) cache" where
  "pop_key key c = c\<lparr>store := (store c)(key := None)\<rparr>"

text \<open>
  \<open>cleanup\<close>: collect the stored keys that are expired, then pop each of them. The
  clock readings taken while the keys are collected are identified with one reading \<open>now\<close>.
\<close>

definition cleanup :: "time \<Rightarrow> ('k, 'v) cache \<Rightarrow> ('k, 'v) cache" where
  "cleanup now c =
     c\<lparr>store := (\<lambda>key. if is_expired now c key then None else store c key)\<rparr>"

text \<open>\<open>set(key, value, ttl=None)\<close>: the expiry is the clock reading plus the given or the default ttl.\<close>

definition set_c :: "time \<Rightarrow> 'k \<Rightarrow> 'v \<Rightarrow> int option \<Rightarrow> ('k, 'v) cache \<Rightarrow> ('k, 'v) cache" where
  "set_c now key val ttl c =
     (let expiry = now + real_of_int (case ttl of Some t \<Rightarrow> t | None \<Rightarrow> default_ttl c)
      in c\<lparr>store := (store c)(key \<mapsto> (val, expiry))\<rparr>)"

text \<open>\<open>__getitem__\<close>: an expired or missing key is popped and KeyError raised.\<close>

definition getitem :: "time \<Rightarrow> 'k \<Rightarrow> ('k, 'v) cache \<Rightarrow> (error + 'v) \<times> ('k, 'v) cache" where
  "getitem now key c =
     (if is_expired now c key then (Inl KeyError, pop_key key c)
      else case store c key of
             Some (val, _) \<Rightarrow> (Inr val, c)
           | None \<Rightarrow> (Inl KeyError, c))"

text \<open>\<open>get(key, default)\<close>: \<open>__getitem__\<close> with the KeyError turned into the default.\<close>

definition get :: "time \<Rightarrow> 'k \<Rightarrow> 'v \<Rightarrow> ('k, 'v) cache \<Rightarrow> 'v \<times> ('k, 'v) cache" where
  "get now key dflt c =
     (case getitem now key c of
        (Inr val, c') \<Rightarrow> (val, c')
      | (Inl _, c') \<Rightarrow> (dflt, c'))"

text \<open>\<open>__setitem__\<close>: as \<open>set\<close> with the default ttl.\<close>

definition setitem :: "time \<Rightarrow> 'k \<Rightarrow> 'v \<Rightarrow> ('k, 'v) cache \<Rightarrow> ('k, 'v) cache" where
  "setitem now key val c =
     (let expiry = now + real_of_int (default_ttl c)
      in c\<lparr>store := (store c)(key \<mapsto> (val, expiry))\<rparr>)"

text \<open>
  \<open>__delitem__\<close>: \<open>del self._store[key]\<close> reads no clock; it raises KeyError when the
  key is not in the dict and leaves the cache as it was.
\<close>

definition delitem :: "'k \<Rightarrow> ('k, 'v) cache \<Rightarrow> error + ('k, 'v) cache" where
  "delitem key c =
     (case store c key of
        None \<Rightarrow> Inl KeyError
      | Some _ \<Rightarrow> Inr (c\<lparr>store := (store c)(key := None)\<rparr>))"

text \<open>\<open>__contains__\<close>: an expired or missing key is popped and reported absent.\<close>

definition contains :: "time \<Rightarrow> 'k \<Rightarrow> ('k, 'v) cache \<Rightarrow> bool \<times> ('k, 'v) cache" where
  "contains now key c =
     (if is_expired now c key then (False, pop_key key c)
      else (store c key \<noteq> None, c))"

text \<open>\<open>__len__\<close> and \<open>__iter__\<close>: sweep first, then count or list the stored keys.\<close>

definition len :: "time \<Rightarrow> ('k, 'v) cache \<Rightarrow> nat \<times> ('k, 'v) cache" where
  "len now c = (let c' = cleanup now c in (card (dom (store c')), c'))"

definition iter :: "time \<Rightarrow> ('k, 'v) cache \<Rightarrow> 'k set \<times> ('k, 'v) cache" where
  "iter now c = (let c' = cleanup now c in (dom (store c'), c'))"

text \<open>
  A call of one of the cache's methods, for statements about what may happen between a
  \<open>set\<close> and a later query. \<open>writes key call\<close> says that the call is a \<open>set\<close>
  (also as \<open>cache[key] = value\<close>) or a \<open>del\<close> of the key.
\<close>

datatype ('k, 'v) call =
    CSet 'k 'v "int option"
  | CSetItem 'k 'v
  | CDelItem 'k
  | CGet 'k 'v
  | CGetItem 'k
  | CContains 'k
  | CCleanup
  | CLen
  | CIter

fun writes :: "'k \<Rightarrow> ('k, 'v) call \<Rightarrow> bool" where
  "writes key (CSet k _ _) = (k = key)"
| "writes key (CSetItem k _) = (k = key)"
| "writes key (CDelItem k) = (k = key)"
| "writes key _ = False"

fun perform :: "time \<Rightarrow> ('k, 'v) call \<Rightarrow> ('k, 'v) cache \<Rightarrow> ('k, 'v) cache" where
  "perform now (CSet k v ttl) c = set_c now k v ttl c"
| "perform now (CSetItem k v) c = setitem now k v c"
| "perform now (CDelItem k) c = (case delitem k c of Inl _ \<Rightarrow> c | Inr c' \<Rightarrow> c')"
| "perform now (CGet k d) c = snd (get now k d c)"
| "perform now (CGetItem k) c = snd (getitem now k c)"
| "perform now (CContains k) c = snd (contains now k c)"
| "perform now CCleanup c = cleanup now c"
| "perform now CLen c = snd (len now c)"
| "perform now CIter c = snd (iter now c)"

text \<open>A history of calls, each with the clock reading it saw, oldest first.\<close>

fun perform_all :: "(time \<times> ('k, 'v) call) list \<Rightarrow> ('k, 'v) cache \<Rightarrow> ('k, 'v) cache" where
  "perform_all [] c = c"
| "perform_all ((now, call) # rest) c = perform_all rest (perform now call c)"


section \<open>Watcher (src/BtcOutputWatcher.py)\<close>

subsection \<open>Transactions and the outside world\<close>

text \<open>
  A transaction detail record is the JSON object that \<open>getrawtransaction\<close> returns. The
  watcher reads two of its keys, \<open>"txid"\<close> and \<open>"vin"\<close>, and of each input the keys
  \<open>"txid"\<close> and \<open>"vout"\<close>; each of them may be missing (\<open>None\<close>). A spent txid is a
  string and a spent output index an integer, as in the watch-list.
\<close>

record tx_input =
  vin_txid :: "string option"
  vin_vout :: "int option"

record tx =
  tx_txid :: "string option"
  tx_vin :: "tx_input list option"

datatype request = GetRawMempool | GetRawTransaction string

datatype message =
    Watching nat
  | MainLoopError error
  | Sleeping int
  | FetchError string error
  | Dumped string string

datatype event = Call request | Print message | Write string | Sleep int

text \<open>
  What the watcher reads from and does to its surroundings. The clock, the outputs file
  and the node are given by what they answer to the n-th reading, opening and call; the
  counters say how many of these have happened. \<open>writable\<close> says whether a path can be
  opened for writing, \<open>files\<close> holds the dumped records, \<open>trace\<close> lists the calls sent to
  the node, the lines printed, the files written and the sleeps, oldest first.
\<close>

record world =
  clock :: "nat \<Rightarrow> time"
  ticks :: nat
  outputs :: "nat \<Rightarrow> string list option"
  opens :: nat
  mempool :: "nat \<Rightarrow> error + string list"
  rawtx :: "nat \<Rightarrow> string \<Rightarrow> error + tx"
  calls :: nat
  writable :: "string \<Rightarrow> bool"
  files :: "string \<rightharpoonup> tx"
  trace :: "event list"

definition time_time :: "world \<Rightarrow> time \<times> world" where
  "time_time w = (clock w (ticks w), w\<lparr>ticks := Suc (ticks w)\<rparr>)"

definition emit :: "event list \<Rightarrow> world \<Rightarrow> world" where
  "emit es w = w\<lparr>trace := trace w @ es\<rparr>"

text \<open>
  \<open>_rpc_call\<close>, once for each of the two methods the watcher calls: the request is sent,
  and a failure of the transport or a status other than 200 is an error.
\<close>

definition rpc_call_getrawmempool :: "world \<Rightarrow> (error + string list) \<times> world" where
  "rpc_call_getrawmempool w =
     (mempool w (calls w), emit [Call GetRawMempool] (w\<lparr>calls := Suc (calls w)\<rparr>))"

definition rpc_call_getrawtransaction :: "string \<Rightarrow> world \<Rightarrow> (error + tx) \<times> world" where
  "rpc_call_getrawtransaction txid w =
     (rawtx w (calls w) txid, emit [Call (GetRawTransaction txid)] (w\<lparr>calls := Suc (calls w)\<rparr>))"

subsection \<open>Loading the watch-list\<close>

text \<open>
  \<open>str.strip()\<close>, \<open>str.split(",")\<close> and \<open>int(...)\<close> on ASCII text. \<open>int\<close> takes
  surrounding whitespace, one sign, and digits with single underscores between them.
\<close>

definition isspace :: "char \<Rightarrow> bool" where
  "isspace c = (c \<in> set [CHR 0x09, CHR 0x0A, CHR 0x0B, CHR 0x0C, CHR 0x0D,
                          CHR 0x1C, CHR 0x1D, CHR 0x1E, CHR 0x1F, CHR 0x20])"

definition strip :: "string \<Rightarrow> string" where
  "strip s = rev (dropWhile isspace (rev (dropWhile isspace s)))"

fun split :: "char \<Rightarrow> string \<Rightarrow> string list" where
  "split sep [] = [[]]"
| "split sep (c # cs) =
     (if c = sep then [] # split sep cs
      else case split sep cs of
             part # parts \<Rightarrow> (c # part) # parts
           | [] \<Rightarrow> [[c]])"

definition isdigit :: "char \<Rightarrow> bool" where
  "isdigit c = (c \<in> set ''0123456789'')"

fun digits_ok :: "bool \<Rightarrow> string \<Rightarrow> bool" where
  "digits_ok after_digit [] = after_digit"
| "digits_ok after_digit (c # cs) =
     (if isdigit c then digits_ok True cs
      else if c = CHR ''_'' \<and> after_digit then digits_ok False cs
      else False)"

definition digits_value :: "string \<Rightarrow> int" where
  "digits_value s = foldl (\<lambda>n c. 10 * n + (of_char c - 48)) 0 (filter isdigit s)"

definition int_of_str :: "string \<Rightarrow> error + int" where
  "int_of_str s =
     (case strip s of
        [] \<Rightarrow> Inl ValueError
      | c # cs \<Rightarrow>
          (let body = (if c = CHR ''-'' \<or> c = CHR ''+'' then cs else c # cs)
           in if digits_ok False body
              then Inr (if c = CHR ''-'' then - digits_value body else digits_value body)
              else Inl ValueError))"

text \<open>
  The body of \<open>_load_watched_outputs\<close>: blank lines are passed over; any other line
  must split into exactly two parts of which the second is an integer, or ValueError is
  raised and the set built so far is lost.
\<close>

fun load_lines :: "string list \<Rightarrow> (string \<times> int) set \<Rightarrow> error + (string \<times> int) set" where
  "load_lines [] watched = Inr watched"
| "load_lines (line # rest) watched =
     (if strip line \<noteq> [] then
        (case split CHR '','' (strip line) of
           [txid, output_index] \<Rightarrow>
             (case int_of_str output_index of
                Inl e \<Rightarrow> Inl e
              | Inr n \<Rightarrow> load_lines rest (insert (txid, n) watched))
         | _ \<Rightarrow> Inl ValueError)
      else load_lines rest watched)"

definition load_watched_outputs :: "world \<Rightarrow> (error + (string \<times> int) set) \<times> world" where
  "load_watched_outputs w =
     (case outputs w (opens w) of
        None \<Rightarrow> (Inl FileNotFoundError, w\<lparr>opens := Suc (opens w)\<rparr>)
      | Some lines \<Rightarrow> (load_lines lines {}, w\<lparr>opens := Suc (opens w)\<rparr>))"

subsection \<open>Matching and dumping\<close>

record watcher =
  dump_folder :: string
  cache :: "(string, bool) cache"
  fetch_interval :: int
  watched_outputs :: "(string \<times> int) set"

text \<open>
  The loop of \<open>_tx_spends_watched_outputs\<close> over the inputs. The second component is
  the number of inputs the loop has taken from the list when it returns.
\<close>

fun scan_vin :: "(string \<times> int) set \<Rightarrow> tx_input list \<Rightarrow> bool \<times> nat" where
  "scan_vin watched [] = (False, 0)"
| "scan_vin watched (vin # rest) =
     (case (vin_txid vin, vin_vout vin) of
        (Some prev_txid, Some prev_output_index) \<Rightarrow>
          if (prev_txid, prev_output_index) \<in> watched then (True, 1)
          else (case scan_vin watched rest of (r, n) \<Rightarrow> (r, Suc n))
      | _ \<Rightarrow> (case scan_vin watched rest of (r, n) \<Rightarrow> (r, Suc n)))"

definition tx_spends_watched_outputs :: "watcher \<Rightarrow> tx \<Rightarrow> bool" where
  "tx_spends_watched_outputs s t =
     fst (scan_vin (watched_outputs s) (case tx_vin t of None \<Rightarrow> [] | Some vins \<Rightarrow> vins))"

text \<open>\<open>os.path.join\<close> of two components on POSIX.\<close>

definition path_join :: "string \<Rightarrow> string \<Rightarrow> string" where
  "path_join a b =
     (if take 1 b = ''/'' then b
      else if a = [] \<or> last a = CHR ''/'' then a @ b
      else a @ ''/'' @ b)"

text \<open>
  \<open>_dump_transaction\<close>: the record is written to \<open><txid>.json\<close> in the dump folder,
  with \<open>unknown_txid\<close> for a record without \<open>"txid"\<close>; opening the file may fail.
\<close>

definition dump_transaction :: "watcher \<Rightarrow> tx \<Rightarrow> world \<Rightarrow> (error + unit) \<times> world" where
  "dump_transaction s t w =
     (let txid = (case tx_txid t of None \<Rightarrow> ''unknown_txid'' | Some i \<Rightarrow> i);
          filepath = path_join (dump_folder s) (txid @ ''.json'')
      in if writable w filepath
         then (Inr (), emit [Write filepath, Print (Dumped txid filepath)]
                         (w\<lparr>files := (files w)(filepath \<mapsto> t)\<rparr>))
         else (Inl OSError, w))"

subsection \<open>The poll cycle\<close>

text \<open>
  The body of the loop of \<open>_process_mempool\<close> for one identifier: a cache hit goes to the
  next identifier; otherwise the record is fetched, matched and dumped inside
  \<open>try\<close>/\<open>except Exception\<close>, and after that \<open>self.cache.set(txid, True)\<close> runs.
\<close>

definition fetch_and_match :: "string \<Rightarrow> watcher \<Rightarrow> world \<Rightarrow> world" where
  "fetch_and_match txid s w =
     (case rpc_call_getrawtransaction txid w of (r, w1) \<Rightarrow>
        (case r of
           Inl e \<Rightarrow> emit [Print (FetchError txid e)] w1
         | Inr raw_tx \<Rightarrow>
             if tx_spends_watched_outputs s raw_tx
             then (case dump_transaction s raw_tx w1 of (d, w2) \<Rightarrow>
                     (case d of
                        Inl e \<Rightarrow> emit [Print (FetchError txid e)] w2
                      | Inr _ \<Rightarrow> w2))
             else w1))"

definition process_txid :: "string \<Rightarrow> world \<times> watcher \<Rightarrow> world \<times> watcher" where
  "process_txid txid ws =
     (case ws of (w, s) \<Rightarrow>
        (case time_time w of (now, w1) \<Rightarrow>
           (case contains now txid (cache s) of (hit, c1) \<Rightarrow>
              if hit then (w1, s\<lparr>cache := c1\<rparr>)
              else (case time_time (fetch_and_match txid (s\<lparr>cache := c1\<rparr>) w1) of
                      (now', w2) \<Rightarrow> (w2, s\<lparr>cache := set_c now' txid True None c1\<rparr>)))))"

fun process_txids :: "string list \<Rightarrow> world \<times> watcher \<Rightarrow> world \<times> watcher" where
  "process_txids [] ws = ws"
| "process_txids (txid # txids) ws = process_txids txids (process_txid txid ws)"

text \<open>
  \<open>_process_mempool\<close>: an error of the listing call leaves the function before the
  loop and before the sweep.
\<close>

definition process_mempool :: "world \<times> watcher \<Rightarrow> (error + unit) \<times> world \<times> watcher" where
  "process_mempool ws =
     (case ws of (w, s) \<Rightarrow>
        (case rpc_call_getrawmempool w of (r, w1) \<Rightarrow>
           (case r of
              Inl e \<Rightarrow> (Inl e, (w1, s))
            | Inr txids \<Rightarrow>
                (case process_txids txids (w1, s) of (w2, s2) \<Rightarrow>
                   (case time_time w2 of (now, w3) \<Rightarrow>
                      (Inr (), (w3, s2\<lparr>cache := cleanup now (cache s2)\<rparr>)))))))"

text \<open>
  One pass through the body of \<open>while True\<close> in \<open>run\<close>. The result \<open>Some e\<close> says that
  the exception \<open>e\<close> left the body, and so \<open>run\<close>: the reload of the watch-list stands
  before the \<open>try\<close>, and \<open>time.sleep\<close>, which refuses a negative length, after it.
\<close>

definition cycle :: "world \<times> watcher \<Rightarrow> error option \<times> world \<times> watcher" where
  "cycle ws =
     (case ws of (w, s) \<Rightarrow>
        (case load_watched_outputs w of (l, w1) \<Rightarrow>
           (case l of
              Inl e \<Rightarrow> (Some e, (w1, s))
            | Inr watched \<Rightarrow>
                (case process_mempool (emit [Print (Watching (card watched))] w1,
                                       s\<lparr>watched_outputs := watched\<rparr>) of
                   (r, (w2, s2)) \<Rightarrow>
                     (let w3 = (case r of
                                  Inl e \<Rightarrow> emit [Print (MainLoopError e)] w2
                                | Inr _ \<Rightarrow> w2);
                          w4 = emit [Print (Sleeping (fetch_interval s2))] w3
                      in if fetch_interval s2 < 0 then (Some ValueError, (w4, s2))
                         else (None, (emit [Sleep (fetch_interval s2)] w4, s2)))))))"

text \<open>
  \<open>run\<close> for at most \<open>n\<close> passes: \<open>(Some e, _)\<close> when the exception \<open>e\<close> ended the loop
  within them, \<open>(None, _)\<close> when the loop is still going after \<open>n\<close> passes. The loop
  has no other exit.
\<close>

fun run :: "nat \<Rightarrow> world \<times> watcher \<Rightarrow> error option \<times> world \<times> watcher" where
  "run 0 ws = (None, ws)"
| "run (Suc n) ws =
     (case cycle ws of (raised, ws') \<Rightarrow>
        (case raised of
           Some e \<Rightarrow> (Some e, ws')
         | None \<Rightarrow> run n ws'))"

text \<open>How often the detail record of an identifier has been requested from the node.\<close>

definition fetches :: "string \<Rightarrow> world \<Rightarrow> nat" where
  "fetches txid w = count_list (trace w) (Call (GetRawTransaction txid))"


section \<open>Notions used in the statements\<close>

text \<open>
  In the words of the specification: an input matches when it carries both a spent txid
  and a spent output index and their pair is a member of the watch-list.
\<close>

definition carries_watched_pair :: "(string \<times> int) set \<Rightarrow> tx_input \<Rightarrow> bool" where
  "carries_watched_pair watched vin =
     (\<exists>spent_txid spent_index.
        vin_txid vin = Some spent_txid \<and> vin_vout vin = Some spent_index
        \<and> (spent_txid, spent_index) \<in> watched)"

text \<open>Two worlds agree in what the clock, the file system and the node will answer.\<close>

definition same_env :: "world \<Rightarrow> world \<Rightarrow> bool" where
  "same_env w w' \<longleftrightarrow>
     clock w' = clock w \<and> outputs w' = outputs w \<and> mempool w' = mempool w
     \<and> rawtx w' = rawtx w \<and> writable w' = writable w"

subsection \<open>Scenarios\<close>

text \<open>
  The end-to-end scenario of the specification: the node lists \<open>txA\<close> and \<open>txB\<close>;
  \<open>txA\<close> spends \<open>(abc123, 0)\<close> and \<open>txB\<close> spends \<open>(def456, 2)\<close>. A world is built
  from a clock, the successive contents of the outputs file and the node's answers to
  \<open>getrawtransaction\<close>; every path is writable and nothing has happened yet.
\<close>

definition tx_A :: tx where
  "tx_A = \<lparr>tx_txid = Some ''txA'',
           tx_vin = Some [\<lparr>vin_txid = Some ''abc123'', vin_vout = Some 0\<rparr>]\<rparr>"

definition tx_B :: tx where
  "tx_B = \<lparr>tx_txid = Some ''txB'',
           tx_vin = Some [\<lparr>vin_txid = Some ''def456'', vin_vout = Some 2\<rparr>]\<rparr>"

definition node_up :: "string \<Rightarrow> error + tx" where
  "node_up txid =
     (if txid = ''txA'' then Inr tx_A else if txid = ''txB'' then Inr tx_B else Inl RuntimeError)"


definition example_world ::
  "(nat \<Rightarrow> time) \<Rightarrow> (nat \<Rightarrow> string list option) \<Rightarrow> (string \<Rightarrow> error + tx) \<Rightarrow> world" where
  "example_world clk file node =
     \<lparr>clock = clk, ticks = 0, outputs = file, opens = 0,
      mempool = (\<lambda>n. Inr [''txA'', ''txB'']), rawtx = (\<lambda>n. node), calls = 0,
      writable = (\<lambda>p. True), files = Map.empty, trace = []\<rparr>"

definition example_watcher :: "int \<Rightarrow> watcher" where
  "example_watcher ttl =
     \<lparr>dump_folder = ''dumped_txs'', cache = Cache ttl, fetch_interval = 180,
      watched_outputs = {}\<rparr>"

text \<open>The clock advances by one second with every reading; the file holds \<open>abc123,0\<close>.\<close>

definition steady_world :: world where
  "steady_world = example_world (\<lambda>n. 1000 + real n) (\<lambda>n. Some [''abc123,0'']) node_up"



text \<open>The second line of the outputs file has no comma.\<close>

definition garbled_world :: world where
  "garbled_world =
     example_world (\<lambda>n. 1000 + real n) (\<lambda>n. Some [''abc123,0'', ''def456'']) node_up"

text \<open>After the first pass the outputs file is gone, or has got a malformed second line.\<close>

definition vanishing_world :: world where
  "vanishing_world =
     example_world (\<lambda>n. 1000 + real n)
       (\<lambda>n. if n = 0 then Some [''abc123,0''] else None) node_up"

definition garbled_later_world :: world where
  "garbled_later_world =
     example_world (\<lambda>n. 1000 + real n)
       (\<lambda>n. if n = 0 then Some [''abc123,0''] else Some [''abc123,0'', ''def456'']) node_up"

text \<open>A watcher that already watches one output.\<close>

definition watching_old :: watcher where
  "watching_old = (example_watcher 3600)\<lparr>watched_outputs := {(''old'', 1)}\<rparr>"

section \<open>Properties of the cache\<close>

subsection \<open>What each operation does to one key\<close>

lemma is_expired_stored: "store c k = Some (v, e) \<Longrightarrow> is_expired now c k = (now > e)"
  by (simp add: is_expired_def)

lemma is_expired_missing: "store c k = None \<Longrightarrow> is_expired now c k"
  by (simp add: is_expired_def)

lemma store_cleanup:
  "store (cleanup now c) k = (if is_expired now c k then None else store c k)"
  by (simp add: cleanup_def)

lemma store_set_c:
  "store (set_c now k v ttl c) k' =
     (if k' = k then Some (v, now + real_of_int (case ttl of Some t \<Rightarrow> t | None \<Rightarrow> default_ttl c))
      else store c k')"
  by (simp add: set_c_def Let_def)

lemma store_setitem:
  "store (setitem now k v c) k' =
     (if k' = k then Some (v, now + real_of_int (default_ttl c)) else store c k')"
  by (simp add: setitem_def Let_def)

lemma store_pop_key: "store (pop_key k c) k' = (if k' = k then None else store c k')"
  by (simp add: pop_key_def)

lemma store_contains:
  "store (snd (contains now k c)) k' =
     (if k' = k \<and> is_expired now c k then None else store c k')"
  by (simp add: contains_def store_pop_key)

lemma store_getitem:
  "store (snd (getitem now k c)) k' =
     (if k' = k \<and> is_expired now c k then None else store c k')"
  by (auto simp: getitem_def store_pop_key split: option.splits)

lemma store_get:
  "store (snd (get now k d c)) k' =
     (if k' = k \<and> is_expired now c k then None else store c k')"
  using store_getitem [of now k c k']
  by (cases "getitem now k c") (auto simp: get_def split: sum.splits)

lemma perform_keeps_live_entry:
  assumes "\<not> writes k call" and "store c k = Some (v, e)" and "t \<le> e"
  shows "store (perform t call c) k = Some (v, e)"
  using assms
  by (cases call)
     (auto simp: store_set_c store_setitem store_contains store_getitem store_get
        store_cleanup len_def iter_def Let_def delitem_def is_expired_stored
        split: option.splits)

lemma perform_adds_nothing:
  assumes "\<not> writes k call"
  shows "store (perform t call c) k = None \<or> store (perform t call c) k = store c k"
  using assms
  by (cases call)
     (simp_all add: store_set_c store_setitem store_contains store_getitem store_get
        store_cleanup len_def iter_def Let_def delitem_def
        split: option.splits)

lemma perform_all_keeps_live_entry:
  assumes "\<forall>(t, call) \<in> set history. \<not> writes k call \<and> t \<le> e"
    and "store c k = Some (v, e)"
  shows "store (perform_all history c) k = Some (v, e)"
  using assms
proof (induction history arbitrary: c)
  case Nil
  then show ?case by simp
next
  case (Cons a history)
  obtain t call where a: "a = (t, call)" by (cases a)
  from Cons.prems a have "store (perform t call c) k = Some (v, e)"
    by (simp add: perform_keeps_live_entry)
  with Cons show ?case by (simp add: a)
qed

lemma perform_all_adds_nothing:
  assumes "\<forall>(t, call) \<in> set history. \<not> writes k call"
  shows "store (perform_all history c) k = None \<or> store (perform_all history c) k = store c k"
  using assms
proof (induction history arbitrary: c)
  case Nil
  then show ?case by simp
next
  case (Cons a history)
  obtain t call where a: "a = (t, call)" by (cases a)
  from Cons.prems a have 1: "store (perform t call c) k = None \<or> store (perform t call c) k = store c k"
    by (simp add: perform_adds_nothing)
  from Cons.prems have "\<forall>(t, call) \<in> set history. \<not> writes k call" by simp
  from Cons.IH [OF this, of "perform t call c"] 1 show ?case
    by (auto simp: a)
qed


subsection \<open>Lifetime of an entry\<close>

text \<open>
  Claim C4, as the code has it. A key is set with ttl \<open>ttl\<close> at time \<open>set_time\<close>; then
  any calls follow that neither set nor delete the key, each at a clock reading not
  later than the query's; then \<open>contains\<close> is asked at time \<open>q\<close>. The answer is true
  exactly when \<open>q \<le> set_time + ttl\<close>: true up to and including the expiry instant,
  false at every later time.
\<close>

theorem contains_until_expiry:
  assumes "\<forall>(t, call) \<in> set history. \<not> writes k call \<and> t \<le> q"
  shows "fst (contains q k (perform_all history (set_c set_time k v (Some ttl) c)))
           = (q \<le> set_time + real_of_int ttl)"
proof -
  let ?c0 = "set_c set_time k v (Some ttl) c"
  let ?e = "set_time + real_of_int ttl"
  have c0: "store ?c0 k = Some (v, ?e)" by (simp add: store_set_c)
  show ?thesis
  proof (cases "q \<le> ?e")
    case True
    with assms have "\<forall>(t, call) \<in> set history. \<not> writes k call \<and> t \<le> ?e" by fastforce
    from perform_all_keeps_live_entry [OF this c0]
    have "store (perform_all history ?c0) k = Some (v, ?e)" .
    with True show ?thesis by (simp add: contains_def is_expired_stored)
  next
    case False
    from assms have "\<forall>(t, call) \<in> set history. \<not> writes k call" by fastforce
    from perform_all_adds_nothing [OF this, of ?c0] c0
    have "store (perform_all history ?c0) k = None \<or> store (perform_all history ?c0) k = Some (v, ?e)"
      by simp
    with False show ?thesis
      by (auto simp: contains_def is_expired_stored is_expired_missing)
  qed
qed

theorem contains_until_expiry_witness:
  "fst (contains 7 ''a'' (perform_all [(2, CContains ''a''), (3, CSet ''b'' True None), (6, CCleanup)]
          (set_c 1 ''a'' True (Some 10) (Cache 60)))) = ((7::real) \<le> 1 + real_of_int 10)
   \<and> fst (contains 12 ''a'' (perform_all [(2, CContains ''a''), (3, CSet ''b'' True None), (6, CCleanup)]
          (set_c 1 ''a'' True (Some 10) (Cache 60)))) = ((12::real) \<le> 1 + real_of_int 10)"
  using contains_until_expiry [of "[(2, CContains ''a''), (3, CSet ''b'' True None), (6, CCleanup)]" "''a''" 7 1 True 10 "Cache 60"]
    contains_until_expiry [of "[(2, CContains ''a''), (3, CSet ''b'' True None), (6, CCleanup)]" "''a''" 12 1 True 10 "Cache 60"]
  by simp


text \<open>
  The claim's own bound, false from \<open>set_time + ttl\<close> on, fails at that very instant:
  set at time 100 with ttl 5 and asked at time 105, the key is still reported present.
\<close>

theorem contains_at_expiry_counterexample:
  "fst (contains (100 + real_of_int 5) ''a'' (set_c 100 ''a'' True (Some 5) (Cache 60))) = True"
  by (simp add: contains_def set_c_def is_expired_def Cache_def)



subsection \<open>Sweep\<close>

text \<open>
  Claim C5, as the code has it. After \<open>cleanup\<close> at time \<open>now\<close> every stored entry has
  \<open>now \<le> expires_at\<close> and was stored like that before, and every entry that had
  \<open>now \<le> expires_at\<close> is still stored with its value and expiry unchanged. So no
  stored entry has \<open>expires_at < now\<close>.
\<close>

theorem cleanup_keeps_unexpired:
  "(\<forall>k v e. store (cleanup now c) k = Some (v, e) \<longrightarrow> now \<le> e \<and> store c k = Some (v, e))
   \<and> (\<forall>k v e. store c k = Some (v, e) \<and> now \<le> e \<longrightarrow> store (cleanup now c) k = Some (v, e))
   \<and> default_ttl (cleanup now c) = default_ttl c"
  by (auto simp: cleanup_def is_expired_def split: if_splits)

theorem cleanup_keeps_unexpired_witness:
  "store \<lparr>store = [''a'' \<mapsto> (True, 4), ''b'' \<mapsto> (True, 6)], default_ttl = 60\<rparr> ''b'' = Some (True, 6)
   \<and> (5::real) \<le> 6
   \<and> store (cleanup 5 \<lparr>store = [''a'' \<mapsto> (True, 4), ''b'' \<mapsto> (True, 6)], default_ttl = 60\<rparr>) ''b''
       = Some (True, 6)"
proof -
  let ?c = "\<lparr>store = [''a'' \<mapsto> (True, 4::real), ''b'' \<mapsto> (True, 6)], default_ttl = 60\<rparr>"
  have stored: "store ?c ''b'' = Some (True, 6) \<and> (5::real) \<le> 6" by simp
  from cleanup_keeps_unexpired [of 5 ?c]
  have "store ?c ''b'' = Some (True, 6) \<and> (5::real) \<le> 6
          \<longrightarrow> store (cleanup 5 ?c) ''b'' = Some (True, 6)"
    by blast
  with stored show ?thesis by blast
qed


text \<open>
  An entry whose expiry equals the time of the sweep stays stored, against the claim's
  "no stored entry has \<open>expires_at \<le> now\<close>".
\<close>

theorem cleanup_at_expiry_counterexample:
  "store (cleanup 5 \<lparr>store = [''a'' \<mapsto> (True, 5)], default_ttl = 60\<rparr>) ''a'' = Some (True, 5)
   \<and> (5::real) \<le> 5"
  by (simp add: cleanup_def is_expired_def)


subsection \<open>Overwriting an entry\<close>

text \<open>
  Claim C8. For a key stored unexpired with value \<open>v1\<close> and expiry \<open>e1\<close>,
  \<open>set(k, v2, ttl)\<close> stores exactly \<open>(v2, now + ttl)\<close> (with the default ttl when none
  is given); the resulting cache is the same whatever value and expiry the key had
  before, and no other key changes.
\<close>

theorem set_replaces_value_and_expiry:
  assumes "store c k = Some (v1, e1)" and "now \<le> e1"
  shows "store (set_c now k v2 (Some ttl) c) k = Some (v2, now + real_of_int ttl)
         \<and> store (set_c now k v2 None c) k = Some (v2, now + real_of_int (default_ttl c))
         \<and> set_c now k v2 (Some ttl) (c\<lparr>store := (store c)(k \<mapsto> (v1', e1'))\<rparr>) = set_c now k v2 (Some ttl) c
         \<and> (\<forall>k'. k' \<noteq> k \<longrightarrow> store (set_c now k v2 (Some ttl) c) k' = store c k')"
  by (simp add: set_c_def)


theorem set_replaces_value_and_expiry_witness:
  "store \<lparr>store = [''a'' \<mapsto> (False, 100)], default_ttl = 60\<rparr> ''a'' = Some (False, 100)
   \<and> (10::real) \<le> 100
   \<and> store (set_c 10 ''a'' True (Some 5) \<lparr>store = [''a'' \<mapsto> (False, 100)], default_ttl = 60\<rparr>) ''a''
       = Some (True, 10 + real_of_int 5)"
proof -
  let ?c = "\<lparr>store = [''a'' \<mapsto> (False, 100::real)], default_ttl = 60\<rparr>"
  have stored: "store ?c ''a'' = Some (False, 100)" and live: "(10::real) \<le> 100" by simp_all
  from set_replaces_value_and_expiry [OF stored live, of True 5]
  have "store (set_c 10 ''a'' True (Some 5) ?c) ''a'' = Some (True, 10 + real_of_int 5)"
    by blast
  with stored live show ?thesis by blast
qed

subsection \<open>Deleting an entry\<close>

text \<open>
  Claim C10. A key that is still in the backing store although its expiry has passed
  (\<open>contains\<close> reports it absent) is deleted without an error; \<open>del\<close> raises, and
  then KeyError, exactly when the key is not in the backing store.
\<close>

theorem delitem_stored_expired:
  "(store c k = Some (v, e) \<and> now > e \<longrightarrow>
      fst (contains now k c) = False \<and> delitem k c = Inr (c\<lparr>store := (store c)(k := None)\<rparr>))
   \<and> (delitem k c = Inl KeyError \<longleftrightarrow> store c k = None)
   \<and> (\<forall>err. delitem k c = Inl err \<longrightarrow> err = KeyError)"
  by (auto simp: delitem_def contains_def is_expired_def split: option.splits)


theorem delitem_stored_expired_witness:
  "store \<lparr>store = [''a'' \<mapsto> (True, 4)], default_ttl = 60\<rparr> ''a'' = Some (True, 4)
   \<and> (5::real) > 4
   \<and> fst (contains 5 ''a'' \<lparr>store = [''a'' \<mapsto> (True, 4)], default_ttl = 60\<rparr>) = False
   \<and> delitem ''a'' \<lparr>store = [''a'' \<mapsto> (True, 4)], default_ttl = 60\<rparr>
       = Inr (\<lparr>store = [''a'' \<mapsto> (True, 4)], default_ttl = 60\<rparr>
                \<lparr>store := (store \<lparr>store = [''a'' \<mapsto> (True, 4)], default_ttl = 60\<rparr>)(''a'' := None)\<rparr>)"
proof -
  let ?c = "\<lparr>store = [''a'' \<mapsto> (True, 4::real)], default_ttl = 60\<rparr>"
  have stored: "store ?c ''a'' = Some (True, 4) \<and> (5::real) > 4" by simp
  from delitem_stored_expired [of ?c "''a''" True 4 5]
  have "store ?c ''a'' = Some (True, 4) \<and> (5::real) > 4 \<longrightarrow>
          fst (contains 5 ''a'' ?c) = False
          \<and> delitem ''a'' ?c = Inr (?c\<lparr>store := (store ?c)(''a'' := None)\<rparr>)"
    by blast
  with stored show ?thesis by blast
qed


section \<open>Properties of the watcher\<close>

subsection \<open>The match predicate\<close>

lemma scan_vin_Cons:
  "scan_vin W (vin # rest) =
     (if carries_watched_pair W vin then (True, 1)
      else (fst (scan_vin W rest), Suc (snd (scan_vin W rest))))"
  by (auto simp: carries_watched_pair_def split: option.splits prod.splits)

lemma scan_vin_no_match:
  "\<forall>u \<in> set vins. \<not> carries_watched_pair W u \<Longrightarrow> scan_vin W vins = (False, length vins)"
  by (induction vins) (simp_all add: scan_vin_Cons del: scan_vin.simps(2))

lemma scan_vin_first_match:
  "\<forall>u \<in> set pre. \<not> carries_watched_pair W u \<Longrightarrow> carries_watched_pair W v
     \<Longrightarrow> scan_vin W (pre @ v # post) = (True, Suc (length pre))"
  by (induction pre) (simp_all add: scan_vin_Cons del: scan_vin.simps(2))

lemma scan_vin_iff: "fst (scan_vin W vins) \<longleftrightarrow> (\<exists>vin \<in> set vins. carries_watched_pair W vin)"
  by (induction vins) (simp_all add: scan_vin_Cons del: scan_vin.simps(2))


text \<open>
  Claim C1. \<open>_tx_spends_watched_outputs\<close> returns true if and only if some input of the
  transaction carries both a spent txid and a spent output index whose pair is in the
  watch-list (a record without \<open>"vin"\<close> has no inputs). An input lacking either field
  never matches. The scan stops at the first matching input: with no match before it,
  the loop has read exactly the inputs up to and including it; without any match it has
  read them all.
\<close>

theorem tx_spends_watched_outputs_iff:
  "(tx_spends_watched_outputs s t \<longleftrightarrow>
      (\<exists>vin \<in> set (case tx_vin t of None \<Rightarrow> [] | Some vins \<Rightarrow> vins).
         carries_watched_pair (watched_outputs s) vin))
   \<and> (vin_txid vin = None \<or> vin_vout vin = None \<longrightarrow> \<not> carries_watched_pair W vin)
   \<and> ((\<forall>u \<in> set pre. \<not> carries_watched_pair W u) \<and> carries_watched_pair W v
        \<longrightarrow> scan_vin W (pre @ v # post) = (True, Suc (length pre)))
   \<and> ((\<forall>u \<in> set vins. \<not> carries_watched_pair W u) \<longrightarrow> scan_vin W vins = (False, length vins))"
proof (intro conjI impI)
  show "tx_spends_watched_outputs s t \<longleftrightarrow>
      (\<exists>vin \<in> set (case tx_vin t of None \<Rightarrow> [] | Some vins \<Rightarrow> vins).
         carries_watched_pair (watched_outputs s) vin)"
    by (simp add: tx_spends_watched_outputs_def scan_vin_iff)
next
  assume "vin_txid vin = None \<or> vin_vout vin = None"
  then show "\<not> carries_watched_pair W vin"
    by (auto simp: carries_watched_pair_def)
next
  assume "(\<forall>u \<in> set pre. \<not> carries_watched_pair W u) \<and> carries_watched_pair W v"
  then show "scan_vin W (pre @ v # post) = (True, Suc (length pre))"
    by (simp add: scan_vin_first_match)
next
  assume "\<forall>u \<in> set vins. \<not> carries_watched_pair W u"
  then show "scan_vin W vins = (False, length vins)"
    by (rule scan_vin_no_match)
qed

theorem tx_spends_watched_outputs_iff_witness:
  "tx_spends_watched_outputs ((example_watcher 3600)\<lparr>watched_outputs := {(''A'', 0)}\<rparr>)
      \<lparr>tx_txid = Some ''t'', tx_vin = Some [\<lparr>vin_txid = Some ''A'', vin_vout = Some 0\<rparr>,
                                            \<lparr>vin_txid = Some ''B'', vin_vout = Some 1\<rparr>]\<rparr>
   \<and> \<not> tx_spends_watched_outputs ((example_watcher 3600)\<lparr>watched_outputs := {(''A'', 1)}\<rparr>)
      \<lparr>tx_txid = Some ''t'', tx_vin = Some [\<lparr>vin_txid = Some ''A'', vin_vout = Some 0\<rparr>,
                                            \<lparr>vin_txid = Some ''B'', vin_vout = Some 1\<rparr>]\<rparr>
   \<and> \<not> tx_spends_watched_outputs ((example_watcher 3600)\<lparr>watched_outputs := {(''B'', 0)}\<rparr>)
      \<lparr>tx_txid = Some ''t'', tx_vin = Some [\<lparr>vin_txid = Some ''A'', vin_vout = Some 0\<rparr>,
                                            \<lparr>vin_txid = Some ''B'', vin_vout = Some 1\<rparr>]\<rparr>
   \<and> scan_vin {(''A'', 0)} [\<lparr>vin_txid = None, vin_vout = None\<rparr>,
                              \<lparr>vin_txid = Some ''A'', vin_vout = Some 0\<rparr>,
                              \<lparr>vin_txid = Some ''B'', vin_vout = Some 1\<rparr>] = (True, 2)"
proof -
  let ?a = "\<lparr>vin_txid = Some ''A'', vin_vout = Some 0\<rparr>"
  let ?b = "\<lparr>vin_txid = Some ''B'', vin_vout = Some 1\<rparr>"
  let ?cb = "\<lparr>vin_txid = None, vin_vout = None\<rparr>"
  let ?t = "\<lparr>tx_txid = Some ''t'', tx_vin = Some [?a, ?b]\<rparr>"
  let ?s = "\<lambda>W. (example_watcher 3600)\<lparr>watched_outputs := W\<rparr>"
  have a0: "carries_watched_pair {(''A'', 0)} ?a" by (simp add: carries_watched_pair_def)
  have a1: "\<not> carries_watched_pair {(''A'', 1)} ?a" "\<not> carries_watched_pair {(''A'', 1)} ?b"
    by (simp_all add: carries_watched_pair_def)
  have b0: "\<not> carries_watched_pair {(''B'', 0)} ?a" "\<not> carries_watched_pair {(''B'', 0)} ?b"
    by (simp_all add: carries_watched_pair_def)
  have cb: "\<forall>u \<in> set [?cb]. \<not> carries_watched_pair {(''A'', 0)} u"
    by (simp add: carries_watched_pair_def)
  from tx_spends_watched_outputs_iff [of "?s {(''A'', 0)}" ?t] a0
  have 1: "tx_spends_watched_outputs (?s {(''A'', 0)}) ?t" by simp
  from tx_spends_watched_outputs_iff [of "?s {(''A'', 1)}" ?t] a1
  have 2: "\<not> tx_spends_watched_outputs (?s {(''A'', 1)}) ?t" by simp
  from tx_spends_watched_outputs_iff [of "?s {(''B'', 0)}" ?t] b0
  have 3: "\<not> tx_spends_watched_outputs (?s {(''B'', 0)}) ?t" by simp
  from tx_spends_watched_outputs_iff [where pre = "[?cb]" and W = "{(''A'', 0)}" and v = ?a and post = "[?b]"] cb a0
  have 4: "scan_vin {(''A'', 0)} ([?cb] @ ?a # [?b]) = (True, Suc (length [?cb]))" by blast
  from 1 2 3 4 show ?thesis by simp
qed


subsection \<open>What a step does to the world\<close>

lemma fetches_emit:
  "fetches i (emit es w) = fetches i w + count_list es (Call (GetRawTransaction i))"
  by (simp add: fetches_def emit_def)

lemma fetches_ticks [simp]: "fetches i (w\<lparr>ticks := n\<rparr>) = fetches i w"
  by (simp add: fetches_def)

lemma fetches_opens [simp]: "fetches i (w\<lparr>opens := n\<rparr>) = fetches i w"
  by (simp add: fetches_def)

lemma fetches_calls [simp]: "fetches i (w\<lparr>calls := n\<rparr>) = fetches i w"
  by (simp add: fetches_def)

lemma fetches_files [simp]: "fetches i (w\<lparr>files := f\<rparr>) = fetches i w"
  by (simp add: fetches_def)

lemma emit_frame [simp]:
  "clock (emit es w) = clock w" "ticks (emit es w) = ticks w"
  "outputs (emit es w) = outputs w" "opens (emit es w) = opens w"
  "mempool (emit es w) = mempool w" "rawtx (emit es w) = rawtx w"
  "calls (emit es w) = calls w" "writable (emit es w) = writable w"
  "files (emit es w) = files w"
  by (simp_all add: emit_def)

lemma same_env_refl [simp]: "same_env w w"
  by (simp add: same_env_def)

lemma same_env_trans: "same_env w w' \<Longrightarrow> same_env w' w'' \<Longrightarrow> same_env w w''"
  by (simp add: same_env_def)

lemma same_env_emit [simp]: "same_env w (emit es w') = same_env w w'"
  by (simp add: same_env_def)

lemma same_env_upd [simp]:
  "same_env w (w'\<lparr>ticks := n\<rparr>) = same_env w w'"
  "same_env w (w'\<lparr>calls := n\<rparr>) = same_env w w'"
  "same_env w (w'\<lparr>opens := n\<rparr>) = same_env w w'"
  "same_env w (w'\<lparr>files := f\<rparr>) = same_env w w'"
  by (simp_all add: same_env_def)

lemma dump_transaction_world:
  "snd (dump_transaction s t w) = w \<or>
   (\<exists>p i. snd (dump_transaction s t w) = emit [Write p, Print (Dumped i p)] (w\<lparr>files := (files w)(p \<mapsto> t)\<rparr>))"
  by (auto simp: dump_transaction_def Let_def)

lemma dump_transaction_frame:
  "same_env w (snd (dump_transaction s t w))"
  "ticks (snd (dump_transaction s t w)) = ticks w"
  "opens (snd (dump_transaction s t w)) = opens w"
  "calls (snd (dump_transaction s t w)) = calls w"
  "fetches i (snd (dump_transaction s t w)) = fetches i w"
  using dump_transaction_world [of s t w]
  by (auto simp: fetches_emit)

lemma fetch_and_match_world:
  "\<exists>w2. same_env w w2 \<and> ticks w2 = ticks w \<and> opens w2 = opens w \<and> calls w2 = Suc (calls w)
        \<and> fetches i w2 = fetches i w + (if i = txid then 1 else 0)
        \<and> fetch_and_match txid s w = w2"
proof -
  let ?w1 = "emit [Call (GetRawTransaction txid)] (w\<lparr>calls := Suc (calls w)\<rparr>)"
  have w1: "same_env w ?w1" "ticks ?w1 = ticks w" "opens ?w1 = opens w" "calls ?w1 = Suc (calls w)"
    "fetches i ?w1 = fetches i w + (if i = txid then 1 else 0)"
    by (simp_all add: fetches_emit)
  show ?thesis
  proof (cases "rawtx w (calls w) txid")
    case (Inl e)
    then have "fetch_and_match txid s w = emit [Print (FetchError txid e)] ?w1"
      by (simp add: fetch_and_match_def rpc_call_getrawtransaction_def)
    with w1 show ?thesis by (simp add: fetches_emit)
  next
    case (Inr raw_tx)
    show ?thesis
    proof (cases "tx_spends_watched_outputs s raw_tx")
      case False
      with Inr have "fetch_and_match txid s w = ?w1"
        by (simp add: fetch_and_match_def rpc_call_getrawtransaction_def)
      with w1 show ?thesis by simp
    next
      case True
      let ?w2 = "snd (dump_transaction s raw_tx ?w1)"
      have w2: "same_env w ?w2" "ticks ?w2 = ticks w" "opens ?w2 = opens w" "calls ?w2 = Suc (calls w)"
        "fetches i ?w2 = fetches i w + (if i = txid then 1 else 0)"
        using w1 dump_transaction_frame(1-4) [where w = ?w1 and s = s and t = raw_tx]
          dump_transaction_frame(5) [where w = ?w1 and s = s and t = raw_tx and i = i]
        by (auto intro: same_env_trans simp del: same_env_emit same_env_upd emit_frame)
      from True Inr have "fetch_and_match txid s w = ?w2
          \<or> (\<exists>e. fetch_and_match txid s w = emit [Print (FetchError txid e)] ?w2)"
        by (cases "dump_transaction s raw_tx ?w1")
           (auto simp: fetch_and_match_def rpc_call_getrawtransaction_def split: sum.splits)
      with w2 show ?thesis by (auto simp: fetches_emit)
    qed
  qed
qed

lemma fetch_and_match_frame:
  "same_env w (fetch_and_match txid s w)"
  "ticks (fetch_and_match txid s w) = ticks w"
  "opens (fetch_and_match txid s w) = opens w"
  "calls (fetch_and_match txid s w) = Suc (calls w)"
  "fetches i (fetch_and_match txid s w) = fetches i w + (if i = txid then 1 else 0)"
  using fetch_and_match_world [where w = w and i = i and txid = txid and s = s] by auto

lemma same_env_clock: "same_env w w' \<Longrightarrow> clock w' = clock w"
  by (simp add: same_env_def)

text \<open>The loop body, by the two outcomes of the cache lookup.\<close>

lemma process_txid_hit:
  assumes "\<not> is_expired (clock w (ticks w)) (cache s) txid"
  shows "process_txid txid (w, s) = (w\<lparr>ticks := Suc (ticks w)\<rparr>, s)"
proof -
  from assms have "store (cache s) txid \<noteq> None"
    by (auto simp: is_expired_def split: option.splits)
  with assms show ?thesis
    by (simp add: process_txid_def time_time_def contains_def)
qed

lemma process_txid_miss:
  assumes "is_expired (clock w (ticks w)) (cache s) txid"
  shows "process_txid txid (w, s) =
           (let w1 = fetch_and_match txid (s\<lparr>cache := pop_key txid (cache s)\<rparr>) (w\<lparr>ticks := Suc (ticks w)\<rparr>)
            in (w1\<lparr>ticks := Suc (Suc (ticks w))\<rparr>,
                s\<lparr>cache := set_c (clock w (Suc (ticks w))) txid True None (pop_key txid (cache s))\<rparr>))"
proof -
  let ?w1 = "fetch_and_match txid (s\<lparr>cache := pop_key txid (cache s)\<rparr>) (w\<lparr>ticks := Suc (ticks w)\<rparr>)"
  have "ticks ?w1 = Suc (ticks w)" "clock ?w1 = clock w"
    using fetch_and_match_frame(1,2) [where w = "w\<lparr>ticks := Suc (ticks w)\<rparr>" and txid = txid and s = "s\<lparr>cache := pop_key txid (cache s)\<rparr>"]
    by (simp_all add: same_env_def)
  with assms show ?thesis
    by (simp add: process_txid_def time_time_def contains_def Let_def)
qed

lemma process_txid_frame:
  assumes "process_txid txid (w, s) = (w', s')"
  shows "same_env w w'" and "ticks w < ticks w'" and "opens w' = opens w"
    and "watched_outputs s' = watched_outputs s" and "dump_folder s' = dump_folder s"
    and "fetch_interval s' = fetch_interval s"
    and "default_ttl (cache s') = default_ttl (cache s)"
    and "fetches i w \<le> fetches i w'"
    and "fetches i w' \<le> fetches i w + (if i = txid then 1 else 0)"
    and "i \<noteq> txid \<Longrightarrow> store (cache s') i = store (cache s) i"
proof -
  let ?s1 = "s\<lparr>cache := pop_key txid (cache s)\<rparr>"
  let ?w1 = "w\<lparr>ticks := Suc (ticks w)\<rparr>"
  note fam = fetch_and_match_frame [where w = ?w1 and txid = txid and s = ?s1]
  have env1: "same_env w ?w1" by (simp add: same_env_def)
  have all: "same_env w w' \<and> ticks w < ticks w' \<and> opens w' = opens w
      \<and> watched_outputs s' = watched_outputs s \<and> dump_folder s' = dump_folder s
      \<and> fetch_interval s' = fetch_interval s
      \<and> default_ttl (cache s') = default_ttl (cache s)
      \<and> fetches i w \<le> fetches i w'
      \<and> fetches i w' \<le> fetches i w + (if i = txid then 1 else 0)
      \<and> (i \<noteq> txid \<longrightarrow> store (cache s') i = store (cache s) i)"
  proof (cases "is_expired (clock w (ticks w)) (cache s) txid")
    case False
    from process_txid_hit [OF False] assms
    have "w' = ?w1" "s' = s" by simp_all
    then show ?thesis by simp
  next
    case True
    from process_txid_miss [OF True] assms
    have w': "w' = (fetch_and_match txid ?s1 ?w1)\<lparr>ticks := Suc (Suc (ticks w))\<rparr>"
      and s': "s' = s\<lparr>cache := set_c (clock w (Suc (ticks w))) txid True None (pop_key txid (cache s))\<rparr>"
      by (simp_all add: Let_def)
    from same_env_trans [OF env1 fam(1)] have "same_env w w'" by (simp add: w')
    moreover have "ticks w < ticks w'" by (simp add: w')
    moreover from fam(3) have "opens w' = opens w" by (simp add: w')
    moreover from fam(5) [where i = i] have "fetches i w' = fetches i w + (if i = txid then 1 else 0)"
      by (simp add: w')
    moreover have "default_ttl (cache s') = default_ttl (cache s)"
      by (simp add: s' set_c_def pop_key_def)
    moreover have "i \<noteq> txid \<longrightarrow> store (cache s') i = store (cache s) i"
      by (simp add: s' store_set_c store_pop_key)
    ultimately show ?thesis by (simp add: s')
  qed
  from all show "same_env w w'" and "ticks w < ticks w'" and "opens w' = opens w"
    and "watched_outputs s' = watched_outputs s" and "dump_folder s' = dump_folder s"
    and "fetch_interval s' = fetch_interval s"
    and "default_ttl (cache s') = default_ttl (cache s)"
    and "fetches i w \<le> fetches i w'"
    and "fetches i w' \<le> fetches i w + (if i = txid then 1 else 0)"
    and "i \<noteq> txid \<Longrightarrow> store (cache s') i = store (cache s) i"
    by simp_all
qed



lemma process_txids_frame:
  assumes "process_txids txids (w, s) = (w', s')"
  shows "same_env w w'" and "ticks w \<le> ticks w'" and "opens w' = opens w"
    and "watched_outputs s' = watched_outputs s" and "dump_folder s' = dump_folder s"
    and "fetch_interval s' = fetch_interval s"
    and "default_ttl (cache s') = default_ttl (cache s)"
    and "fetches i w \<le> fetches i w'"
proof -
  have "same_env w w' \<and> ticks w \<le> ticks w' \<and> opens w' = opens w
      \<and> watched_outputs s' = watched_outputs s \<and> dump_folder s' = dump_folder s
      \<and> fetch_interval s' = fetch_interval s
      \<and> default_ttl (cache s') = default_ttl (cache s)
      \<and> fetches i w \<le> fetches i w'"
    using assms
  proof (induction txids arbitrary: w s)
    case Nil
    then show ?case by simp
  next
    case (Cons txid txids)
    obtain w1 s1 where step: "process_txid txid (w, s) = (w1, s1)"
      by (cases "process_txid txid (w, s)")
    with Cons.prems have rest: "process_txids txids (w1, s1) = (w', s')" by simp
    note f = process_txid_frame(1-7) [OF step] process_txid_frame(8) [OF step, where i = i]
    from Cons.IH [OF rest] f show ?case
      by (auto intro: same_env_trans)
  qed
  then show "same_env w w'" and "ticks w \<le> ticks w'" and "opens w' = opens w"
    and "watched_outputs s' = watched_outputs s" and "dump_folder s' = dump_folder s"
    and "fetch_interval s' = fetch_interval s"
    and "default_ttl (cache s') = default_ttl (cache s)"
    and "fetches i w \<le> fetches i w'"
    by simp_all
qed





lemma load_watched_outputs_world:
  "snd (load_watched_outputs w) = w\<lparr>opens := Suc (opens w)\<rparr>"
  by (simp add: load_watched_outputs_def split: option.splits)

lemma cycle_load_error:
  assumes "fst (load_watched_outputs w) = Inl e"
  shows "cycle (w, s) = (Some e, w\<lparr>opens := Suc (opens w)\<rparr>, s)"
proof -
  from assms load_watched_outputs_world [of w]
  have "load_watched_outputs w = (Inl e, w\<lparr>opens := Suc (opens w)\<rparr>)"
    by (cases "load_watched_outputs w") simp
  then show ?thesis by (simp add: cycle_def)
qed

lemma process_mempool_listing_error:
  assumes "mempool w (calls w) = Inl e"
  shows "process_mempool (w, s) = (Inl e, emit [Call GetRawMempool] (w\<lparr>calls := Suc (calls w)\<rparr>), s)"
  using assms by (simp add: process_mempool_def rpc_call_getrawmempool_def)

lemma process_mempool_scan:
  assumes "mempool w (calls w) = Inr txids"
    and "process_txids txids (emit [Call GetRawMempool] (w\<lparr>calls := Suc (calls w)\<rparr>), s) = (w2, s2)"
  shows "process_mempool (w, s) =
           (Inr (), w2\<lparr>ticks := Suc (ticks w2)\<rparr>, s2\<lparr>cache := cleanup (clock w2 (ticks w2)) (cache s2)\<rparr>)"
  using assms by (simp add: process_mempool_def rpc_call_getrawmempool_def time_time_def)

lemma cycle_after_load:
  assumes "fst (load_watched_outputs w) = Inr W"
    and "process_mempool (emit [Print (Watching (card W))] (w\<lparr>opens := Suc (opens w)\<rparr>),
                          s\<lparr>watched_outputs := W\<rparr>) = (r, w2, s2)"
    and "cycle (w, s) = (r', w', s')"
  shows "s' = s2" and "ticks w' = ticks w2" and "fetches i w' = fetches i w2"
    and "same_env w2 w'" and "r' = (if fetch_interval s2 < 0 then Some ValueError else None)"
proof -
  from assms(1) load_watched_outputs_world [of w]
  have "load_watched_outputs w = (Inr W, w\<lparr>opens := Suc (opens w)\<rparr>)"
    by (cases "load_watched_outputs w") simp
  with assms(2,3)
  have "s' = s2 \<and> ticks w' = ticks w2 \<and> fetches i w' = fetches i w2 \<and> same_env w2 w'
        \<and> r' = (if fetch_interval s2 < 0 then Some ValueError else None)"
    by (cases r) (auto simp: cycle_def Let_def fetches_emit)
  then show "s' = s2" and "ticks w' = ticks w2" and "fetches i w' = fetches i w2"
    and "same_env w2 w'" and "r' = (if fetch_interval s2 < 0 then Some ValueError else None)"
    by simp_all
qed






subsection \<open>Evaluating the scenarios\<close>

lemmas exec_defs = example_world_def example_watcher_def tx_A_def tx_B_def node_up_def
  cycle_def process_mempool_def process_txid_def fetch_and_match_def dump_transaction_def
  load_watched_outputs_def rpc_call_getrawmempool_def rpc_call_getrawtransaction_def
  time_time_def emit_def contains_def is_expired_def pop_key_def set_c_def cleanup_def Cache_def
  tx_spends_watched_outputs_def path_join_def
  int_of_str_def strip_def isspace_def isdigit_def digits_value_def Let_def






subsection \<open>Marking identifiers seen\<close>








subsection \<open>Fetching once per TTL window\<close>



subsection \<open>Reloading the watch-list\<close>

lemma process_mempool_watched_outputs:
  assumes "process_mempool (w, s) = (r, w2, s2)"
  shows "watched_outputs s2 = watched_outputs s"
proof (cases "mempool w (calls w)")
  case (Inl e)
  from process_mempool_listing_error [OF Inl, of s] assms show ?thesis by simp
next
  case (Inr txids)
  let ?wb = "emit [Call GetRawMempool] (w\<lparr>calls := Suc (calls w)\<rparr>)"
  obtain w3 s3 where sc: "process_txids txids (?wb, s) = (w3, s3)"
    by (cases "process_txids txids (?wb, s)")
  from process_mempool_scan [OF Inr sc] assms process_txids_frame(4) [OF sc]
  show ?thesis by auto
qed


text \<open>
  Claim C7. When the load of the watch-list raises, the pass ends with that exception
  and the watcher is exactly as before the load, its watched-outputs set included;
  nothing was printed, requested or written, only the file was opened. When the load
  returns a set, that set, built from the empty set, is what the watcher holds after the
  pass. So the match step never sees a partly loaded set.
\<close>

theorem failed_load_keeps_watched_outputs:
  "(fst (load_watched_outputs w) = Inl e \<longrightarrow>
      cycle (w, s) = (Some e, w\<lparr>opens := Suc (opens w)\<rparr>, s))
   \<and> (fst (load_watched_outputs w) = Inr W \<longrightarrow>
      watched_outputs (snd (snd (cycle (w, s)))) = W)"
proof (intro conjI impI)
  assume "fst (load_watched_outputs w) = Inl e"
  then show "cycle (w, s) = (Some e, w\<lparr>opens := Suc (opens w)\<rparr>, s)"
    by (rule cycle_load_error)
next
  assume ok: "fst (load_watched_outputs w) = Inr W"
  let ?wa = "emit [Print (Watching (card W))] (w\<lparr>opens := Suc (opens w)\<rparr>)"
  let ?sa = "s\<lparr>watched_outputs := W\<rparr>"
  obtain r w2 s2 where pm: "process_mempool (?wa, ?sa) = (r, w2, s2)"
    by (cases "process_mempool (?wa, ?sa)")
  obtain r' w' s' where c: "cycle (w, s) = (r', w', s')"
    by (cases "cycle (w, s)")
  from cycle_after_load(1) [OF ok pm c] process_mempool_watched_outputs [OF pm]
  show "watched_outputs (snd (snd (cycle (w, s)))) = W"
    by (simp add: c)
qed


theorem failed_load_keeps_watched_outputs_witness:
  "fst (load_watched_outputs (garbled_world))
     = Inl ValueError
   \<and> fst (cycle (garbled_world, watching_old))
     = Some ValueError
   \<and> watched_outputs (snd (snd (cycle
        (garbled_world, watching_old))))
     = {(''old'', 1)}
   \<and> trace (fst (snd (cycle
        (garbled_world, watching_old))))
     = []"
proof -
  let ?w = "garbled_world"
  have bad: "fst (load_watched_outputs ?w) = Inl ValueError"
    by (simp add: garbled_world_def example_world_def load_watched_outputs_def strip_def isspace_def
          int_of_str_def isdigit_def digits_value_def)
  from failed_load_keeps_watched_outputs [of ?w ValueError watching_old] bad
  have "cycle (?w, watching_old) = (Some ValueError, ?w\<lparr>opens := Suc (opens ?w)\<rparr>, watching_old)"
    by blast
  with bad show ?thesis
    by (simp add: watching_old_def example_watcher_def garbled_world_def example_world_def)
qed


text \<open>
  Claim C2 fails on the code, by the same fact: the reload stands before the \<open>try\<close> of
  \<open>run\<close>, so a load error leaves the loop. In both worlds the first pass completes and
  sleeps; the second finds the file missing, or its second line malformed, and \<open>run\<close>
  ends with FileNotFoundError, or ValueError, with no further line printed and no
  further sleep.
\<close>

theorem run_ends_on_load_error:
  "fst (run (Suc (Suc 0))
          (vanishing_world,
           example_watcher 3600))
     = Some FileNotFoundError
   \<and> trace (fst (snd (run (Suc (Suc 0))
          (vanishing_world,
           example_watcher 3600))))
     = [Print (Watching 1), Call GetRawMempool,
        Call (GetRawTransaction ''txA''), Write ''dumped_txs/txA.json'',
        Print (Dumped ''txA'' ''dumped_txs/txA.json''),
        Call (GetRawTransaction ''txB''), Print (Sleeping 180), Sleep 180]
   \<and> fst (run (Suc (Suc 0))
          (garbled_later_world,
           example_watcher 3600))
     = Some ValueError
   \<and> trace (fst (snd (run (Suc (Suc 0))
          (garbled_later_world,
           example_watcher 3600))))
     = [Print (Watching 1), Call GetRawMempool,
        Call (GetRawTransaction ''txA''), Write ''dumped_txs/txA.json'',
        Print (Dumped ''txA'' ''dumped_txs/txA.json''),
        Call (GetRawTransaction ''txB''), Print (Sleeping 180), Sleep 180]"
  by (simp add: exec_defs vanishing_world_def garbled_later_world_def)

subsection \<open>Dumping a record without an identifier\<close>

text \<open>
  Claim C9. A record without \<open>"txid"\<close> is written to \<open>unknown_txid.json\<close> joined to
  the dump folder (when that path can be opened for writing; otherwise nothing is
  written and OSError is raised). A second such record dumped after it goes to the same
  path and replaces the first.
\<close>

theorem dump_without_txid:
  assumes "tx_txid t1 = None" and "tx_txid t2 = None"
  shows "dump_transaction s t1 w =
           (if writable w (path_join (dump_folder s) ''unknown_txid.json'')
            then (Inr (), emit [Write (path_join (dump_folder s) ''unknown_txid.json''),
                               Print (Dumped ''unknown_txid'' (path_join (dump_folder s) ''unknown_txid.json''))]
                            (w\<lparr>files := (files w)(path_join (dump_folder s) ''unknown_txid.json'' \<mapsto> t1)\<rparr>))
            else (Inl OSError, w))
         \<and> (writable w (path_join (dump_folder s) ''unknown_txid.json'') \<longrightarrow>
              files (snd (dump_transaction s t2 (snd (dump_transaction s t1 w))))
                = (files w)(path_join (dump_folder s) ''unknown_txid.json'' \<mapsto> t2))
         \<and> (dump_folder s \<noteq> [] \<and> last (dump_folder s) \<noteq> CHR ''/'' \<longrightarrow>
              path_join (dump_folder s) ''unknown_txid.json'' = dump_folder s @ ''/unknown_txid.json'')"
proof -
  let ?p = "path_join (dump_folder s) ''unknown_txid.json''"
  have one: "dump_transaction s t w' =
               (if writable w' ?p
                then (Inr (), emit [Write ?p, Print (Dumped ''unknown_txid'' ?p)]
                                (w'\<lparr>files := (files w')(?p \<mapsto> t)\<rparr>))
                else (Inl OSError, w'))"
    if "tx_txid t = None" for t w'
    using that by (simp add: dump_transaction_def Let_def)
  have two: "files (snd (dump_transaction s t2 (snd (dump_transaction s t1 w)))) = (files w)(?p \<mapsto> t2)"
    if "writable w ?p"
    using that by (simp add: one [OF assms(1)] one [OF assms(2)] emit_def)
  have three: "?p = dump_folder s @ ''/unknown_txid.json''"
    if "dump_folder s \<noteq> [] \<and> last (dump_folder s) \<noteq> CHR ''/''"
    using that by (simp add: path_join_def)
  from one [OF assms(1), of w] two three show ?thesis by blast
qed


theorem dump_without_txid_witness:
  "tx_txid \<lparr>tx_txid = None, tx_vin = Some []\<rparr> = None
   \<and> tx_txid \<lparr>tx_txid = None, tx_vin = None\<rparr> = None
   \<and> files (snd (dump_transaction (example_watcher 3600) \<lparr>tx_txid = None, tx_vin = None\<rparr>
        (snd (dump_transaction (example_watcher 3600) \<lparr>tx_txid = None, tx_vin = Some []\<rparr>
           (steady_world)))))
      = [''dumped_txs/unknown_txid.json'' \<mapsto> \<lparr>tx_txid = None, tx_vin = None\<rparr>]"
proof -
  let ?w = "steady_world"
  let ?s = "example_watcher 3600"
  let ?t1 = "\<lparr>tx_txid = None, tx_vin = Some []\<rparr>"
  let ?t2 = "\<lparr>tx_txid = None, tx_vin = None\<rparr>"
  have n1: "tx_txid ?t1 = None" and n2: "tx_txid ?t2 = None" by simp_all
  have p: "path_join (dump_folder ?s) ''unknown_txid.json'' = ''dumped_txs/unknown_txid.json''"
    by (simp add: path_join_def example_watcher_def)
  have wr: "writable ?w (path_join (dump_folder ?s) ''unknown_txid.json'')"
    and f: "files ?w = Map.empty"
    by (simp_all add: steady_world_def example_world_def)
  from dump_without_txid [OF n1 n2, of ?s ?w] wr
  have "files (snd (dump_transaction ?s ?t2 (snd (dump_transaction ?s ?t1 ?w))))
          = (files ?w)(path_join (dump_folder ?s) ''unknown_txid.json'' \<mapsto> ?t2)"
    by blast
  with n1 n2 show ?thesis by (simp add: p f)
qed


end
